theory Spec2Isabelle
  imports Main "HOL-Library.Product_Lexorder" "HOL-Library.Multiset"
begin

section \<open>Text primitives of the Python runtime\<close>

text \<open>
  Python text is modelled as \<open>string\<close>. The model covers the ASCII range, where one
  character is one code point; a character above 127 is carried along unchanged and is
  neither white space, a letter nor a digit.
\<close>

definition is_space :: "char \<Rightarrow> bool" where
  \<comment> \<open>\<open>str.isspace\<close> on one ASCII character: TAB, LF, VT, FF, CR, FS, GS, RS, US, SPACE.\<close>
  "is_space c \<longleftrightarrow>
     (let n = (of_char c :: nat) in (9 \<le> n \<and> n \<le> 13) \<or> (28 \<le> n \<and> n \<le> 32))"

definition strip :: "string \<Rightarrow> string" where
  \<comment> \<open>\<open>s.strip()\<close>: white space removed at both ends.\<close>
  "strip s = rev (dropWhile is_space (rev (dropWhile is_space s)))"

definition lower_char :: "char \<Rightarrow> char" where
  "lower_char c =
     (let n = (of_char c :: nat) in if 65 \<le> n \<and> n \<le> 90 then char_of (n + 32) else c)"

definition upper_char :: "char \<Rightarrow> char" where
  "upper_char c =
     (let n = (of_char c :: nat) in if 97 \<le> n \<and> n \<le> 122 then char_of (n - 32) else c)"

definition lower :: "string \<Rightarrow> string" where
  \<comment> \<open>\<open>s.lower()\<close>\<close>
  "lower s = map lower_char s"

definition upper :: "string \<Rightarrow> string" where
  \<comment> \<open>\<open>s.upper()\<close>\<close>
  "upper s = map upper_char s"

fun split_on :: "char \<Rightarrow> string \<Rightarrow> string list" where
  \<comment> \<open>\<open>s.split(sep)\<close> for a one-character separator; the result is never empty.\<close>
  "split_on sep [] = [[]]"
| "split_on sep (c # cs) =
     (if c = sep then [] # split_on sep cs
      else (case split_on sep cs of
              [] \<Rightarrow> [[c]]
            | p # ps \<Rightarrow> (c # p) # ps))"

definition fmt_opt :: "string option \<Rightarrow> string" where
  \<comment> \<open>\<open>f"{x}"\<close> for a value that is text or \<open>None\<close>.\<close>
  "fmt_opt x = (case x of None \<Rightarrow> ''None'' | Some s \<Rightarrow> s)"

definition fmt_bool :: "bool \<Rightarrow> string" where
  \<comment> \<open>\<open>f"{b}"\<close> for a boolean.\<close>
  "fmt_bool b = (if b then ''True'' else ''False'')"

subsection \<open>Integers as text\<close>

text \<open>
  Integers are unbounded. The limit that recent interpreters put on the number of digits
  of a conversion between \<open>int\<close> and text (4300 by default, and configurable) is outside
  the model.
\<close>

definition is_digit :: "char \<Rightarrow> bool" where
  "is_digit c \<longleftrightarrow> (let n = (of_char c :: nat) in 48 \<le> n \<and> n \<le> 57)"

definition digit_val :: "char \<Rightarrow> nat" where
  "digit_val c = (of_char c :: nat) - 48"

definition digit_char :: "nat \<Rightarrow> char" where
  "digit_char d = char_of (48 + d)"

function str_nat :: "nat \<Rightarrow> string" where
  "str_nat n = (if n < 10 then [digit_char n] else str_nat (n div 10) @ [digit_char (n mod 10)])"
  by pat_completeness auto
termination
  by (relation "measure (\<lambda>n. n)") auto

declare str_nat.simps [simp del]

definition str_int :: "int \<Rightarrow> string" where
  \<comment> \<open>\<open>f"{i}"\<close> for an integer: decimal digits, a minus sign when negative.\<close>
  "str_int i = (if i < 0 then CHR ''-'' # str_nat (nat (- i)) else str_nat (nat i))"

datatype py_error = ValueError | AttributeError | TypeError

definition is_int_space :: "char \<Rightarrow> bool" where
  \<comment> \<open>The white space \<open>int()\<close> skips around an ASCII literal: TAB, LF, VT, FF, CR, SPACE.\<close>
  "is_int_space c \<longleftrightarrow> (let n = (of_char c :: nat) in (9 \<le> n \<and> n \<le> 13) \<or> n = 32)"

fun parse_digits :: "nat \<Rightarrow> string \<Rightarrow> nat option" where
  \<comment> \<open>The rest of a decimal literal after a digit: digits, single underscores between them.\<close>
  "parse_digits acc [] = Some acc"
| "parse_digits acc [c] = (if is_digit c then Some (10 * acc + digit_val c) else None)"
| "parse_digits acc (c # d # cs) =
     (if is_digit c then parse_digits (10 * acc + digit_val c) (d # cs)
      else if c = CHR ''_'' \<and> is_digit d then parse_digits acc (d # cs)
      else None)"

definition parse_nat :: "string \<Rightarrow> nat option" where
  "parse_nat s =
     (case s of
        [] \<Rightarrow> None
      | c # cs \<Rightarrow> if is_digit c then parse_digits (digit_val c) cs else None)"

definition py_int :: "string \<Rightarrow> py_error + int" where
  \<comment> \<open>\<open>int(s)\<close> in base 10: surrounding white space, an optional sign, then the digits;
      anything else raises \<open>ValueError\<close>.\<close>
  "py_int s =
     (let t = rev (dropWhile is_int_space (rev (dropWhile is_int_space s))) in
      case t of
        [] \<Rightarrow> Inl ValueError
      | c # cs \<Rightarrow>
          if c = CHR ''-'' then
            (case parse_nat cs of None \<Rightarrow> Inl ValueError | Some n \<Rightarrow> Inr (- int n))
          else if c = CHR ''+'' then
            (case parse_nat cs of None \<Rightarrow> Inl ValueError | Some n \<Rightarrow> Inr (int n))
          else
            (case parse_nat t of None \<Rightarrow> Inl ValueError | Some n \<Rightarrow> Inr (int n)))"

section \<open>The task entity\<close>

record task =
  task_id :: int
  description :: string
  due_date :: "string option"
  completed :: bool
  priority :: string

text \<open>
  Every \<open>print\<close> of the program is recorded as one message on the console, carrying the
  values interpolated into its text.
\<close>

datatype message =
    NoExistingFile string
  | TasksSaved string
  | InvalidPriority string
  | MarkedCompleted int string
  | Loaded nat int
  | TaskAdded string string
  | NotFound int
  | CurrentTasksHeader
  | NoTasksAvailable
  | TaskLine task
  | Footer

definition valid_priorities :: "string list" where
  "valid_priorities = [''low'', ''medium'', ''high'']"

definition Task_init ::
  "int \<Rightarrow> string \<Rightarrow> string option \<Rightarrow> bool \<Rightarrow> string option \<Rightarrow> task \<times> message list" where
  \<comment> \<open>\<open>Task.__init__\<close>: the constructed task and what the constructor prints.
      \<open>None\<close> and the empty text are the falsy priorities.\<close>
  "Task_init tid descr due compl prio =
     (let p = (case prio of
                 None \<Rightarrow> ''medium''
               | Some s \<Rightarrow> if s = [] then ''medium'' else lower s)
      in if p \<notin> set valid_priorities
         then (\<lparr>task_id = tid, description = descr, due_date = due, completed = compl,
                 priority = ''medium''\<rparr>,
               [InvalidPriority (fmt_opt prio)])
         else (\<lparr>task_id = tid, description = descr, due_date = due, completed = compl,
                 priority = p\<rparr>,
               []))"

definition mark_completed :: "task \<Rightarrow> task \<times> message list" where
  \<comment> \<open>\<open>Task.mark_completed\<close>\<close>
  "mark_completed t =
     (t\<lparr>completed := True\<rparr>, [MarkedCompleted (task_id t) (description t)])"

section \<open>File-backed storage\<close>

text \<open>
  The world outside the program: the text files by name (a name without an entry is a
  file that does not exist) and the console. Opening a file for writing always succeeds
  in this model, and lines are written with the POSIX line end.
\<close>

record world =
  files :: "string \<rightharpoonup> string"
  console :: "message list"

record file_task_storage =
  filename :: string

definition FileTaskStorage_init :: "string \<Rightarrow> file_task_storage" where
  \<comment> \<open>\<open>FileTaskStorage.__init__\<close>\<close>
  "FileTaskStorage_init name = \<lparr>filename = name\<rparr>"

definition LF :: char where
  "LF = CHR 0x0A"

definition CR :: char where
  "CR = CHR 0x0D"

fun universal_newlines :: "string \<Rightarrow> string" where
  \<comment> \<open>Reading in text mode: CR LF and a lone CR arrive as LF.\<close>
  "universal_newlines [] = []"
| "universal_newlines [c] = (if c = CR then [LF] else [c])"
| "universal_newlines (c # d # ds) =
     (if c = CR \<and> d = LF then LF # universal_newlines ds
      else if c = CR then LF # universal_newlines (d # ds)
      else c # universal_newlines (d # ds))"

fun file_lines :: "string \<Rightarrow> string list" where
  \<comment> \<open>\<open>for line in f\<close>: every line keeps its LF; a last line without one is still a line.\<close>
  "file_lines [] = []"
| "file_lines (c # cs) =
     (if c = LF then [LF] # file_lines cs
      else (case file_lines cs of
              [] \<Rightarrow> [[c]]
            | l # ls \<Rightarrow> (c # l) # ls))"

definition line_task :: "int \<Rightarrow> string list \<Rightarrow> task \<times> message list" where
  \<comment> \<open>What \<open>load_tasks\<close> builds from the fields of a line of at least four fields, once
      the first field has been read as the id; the priority is the fifth field, or
      \<open>'medium'\<close> when there is none.\<close>
  "line_task tid parts =
     (let descr = parts ! 1;
          due = (if parts ! 2 \<noteq> ''None'' then Some (parts ! 2) else None);
          compl = (parts ! 3 = ''True'');
          prio = (if length parts > 4 then parts ! 4 else ''medium'')
      in Task_init tid descr due compl (Some prio))"

fun load_lines ::
  "string list \<Rightarrow> task list \<Rightarrow> message list \<Rightarrow> (py_error + task list) \<times> message list" where
  \<comment> \<open>The loop of \<open>load_tasks\<close> over the lines still to read, with the tasks loaded and
      the console so far. A first field that is no integer raises \<open>ValueError\<close>, which
      \<open>load_tasks\<close> does not catch.\<close>
  "load_lines [] loaded_tasks out = (Inr loaded_tasks, out)"
| "load_lines (line # rest) loaded_tasks out =
     (let parts = split_on CHR '','' (strip line) in
      if length parts \<ge> 4 then
        (case py_int (parts ! 0) of
           Inl e \<Rightarrow> (Inl e, out)
         | Inr tid \<Rightarrow>
             (case line_task tid parts of
                (t, warn) \<Rightarrow> load_lines rest (loaded_tasks @ [t]) (out @ warn)))
      else load_lines rest loaded_tasks out)"

definition load_tasks :: "file_task_storage \<Rightarrow> world \<Rightarrow> (py_error + task list) \<times> world" where
  \<comment> \<open>\<open>FileTaskStorage.load_tasks\<close>\<close>
  "load_tasks st w =
     (case files w (filename st) of
        None \<Rightarrow> (Inr [], w\<lparr>console := console w @ [NoExistingFile (filename st)]\<rparr>)
      | Some content \<Rightarrow>
          (case load_lines (file_lines (universal_newlines content)) [] (console w) of
             (r, out) \<Rightarrow> (r, w\<lparr>console := out\<rparr>)))"

definition task_line :: "task \<Rightarrow> string" where
  \<comment> \<open>The line \<open>save_tasks\<close> writes for one task.\<close>
  "task_line t =
     str_int (task_id t) @ '','' @ description t @ '','' @ fmt_opt (due_date t) @ '','' @
     fmt_bool (completed t) @ '','' @ priority t @ [LF]"

fun write_tasks :: "task list \<Rightarrow> string \<Rightarrow> string" where
  \<comment> \<open>The loop of \<open>save_tasks\<close>: each write appends to the file's new content.\<close>
  "write_tasks [] buf = buf"
| "write_tasks (t # ts) buf = write_tasks ts (buf @ task_line t)"

definition save_tasks :: "file_task_storage \<Rightarrow> task list \<Rightarrow> world \<Rightarrow> world" where
  \<comment> \<open>\<open>FileTaskStorage.save_tasks\<close>: the file is opened with \<open>"w"\<close>, so it starts empty.\<close>
  "save_tasks st ts w =
     w\<lparr>files := (files w)(filename st \<mapsto> write_tasks ts []),
       console := console w @ [TasksSaved (filename st)]\<rparr>"

section \<open>The task manager\<close>

record task_manager =
  storage :: file_task_storage
  tasks :: "task list"
  next_id :: int

fun py_max :: "int list \<Rightarrow> int option" where
  \<comment> \<open>\<open>max(xs)\<close>; \<open>None\<close> stands for the \<open>ValueError\<close> on an empty list.\<close>
  "py_max [] = None"
| "py_max (x # xs) = Some (foldl max x xs)"

definition TaskManager_init ::
  "file_task_storage \<Rightarrow> world \<Rightarrow> (py_error + task_manager) \<times> world" where
  \<comment> \<open>\<open>TaskManager.__init__\<close>\<close>
  "TaskManager_init st w =
     (case load_tasks st w of
        (Inl e, w1) \<Rightarrow> (Inl e, w1)
      | (Inr ts, w1) \<Rightarrow>
          (if ts \<noteq> [] then
             (case py_max (map task_id ts @ [0]) of
                None \<Rightarrow> (Inl ValueError, w1)
              | Some mx \<Rightarrow>
                  (Inr \<lparr>storage = st, tasks = ts, next_id = mx + 1\<rparr>,
                   w1\<lparr>console := console w1 @ [Loaded (length ts) (mx + 1)]\<rparr>))
           else
             (Inr \<lparr>storage = st, tasks = ts, next_id = 1\<rparr>,
              w1\<lparr>console := console w1 @ [Loaded (length ts) 1]\<rparr>)))"

definition add_task ::
  "string \<Rightarrow> string option \<Rightarrow> string option \<Rightarrow> task_manager \<Rightarrow> world \<Rightarrow>
   (py_error + task) \<times> task_manager \<times> world" where
  \<comment> \<open>\<open>TaskManager.add_task\<close>: the result or the exception raised, and the manager and the
      world as the call leaves them. The confirmation calls \<open>upper\<close> on the priority
      argument, which \<open>None\<close> does not have.\<close>
  "add_task descr due prio m w =
     (case Task_init (next_id m) descr due False prio of
        (t, warn) \<Rightarrow>
          (let w1 = w\<lparr>console := console w @ warn\<rparr>;
               m1 = m\<lparr>tasks := tasks m @ [t]\<rparr>;
               m2 = m1\<lparr>next_id := next_id m1 + 1\<rparr>;
               w2 = save_tasks (storage m2) (tasks m2) w1
           in case prio of
                None \<Rightarrow> (Inl AttributeError, m2, w2)
              | Some p \<Rightarrow>
                  (Inr t, m2, w2\<lparr>console := console w2 @ [TaskAdded descr (upper p)]\<rparr>)))"

definition priority_order :: "string \<rightharpoonup> int" where
  "priority_order = map_of [(''high'', 3), (''medium'', 2), (''low'', 1)]"

definition priority_weight :: "task \<Rightarrow> int" where
  \<comment> \<open>\<open>priority_order.get(t.priority, 2)\<close>\<close>
  "priority_weight t = (case priority_order (priority t) of None \<Rightarrow> 2 | Some v \<Rightarrow> v)"

definition list_key :: "task \<Rightarrow> bool \<times> int" where
  \<comment> \<open>The sort key of \<open>list_tasks\<close>; tuples compare lexicographically, \<open>False\<close> before
      \<open>True\<close>.\<close>
  "list_key t = (completed t, - priority_weight t)"

definition list_tasks_prints :: "task_manager \<Rightarrow> message list" where
  \<comment> \<open>What \<open>TaskManager.list_tasks\<close> prints; \<open>sorted\<close> is a stable sort, as \<open>sort_key\<close>
      is.\<close>
  "list_tasks_prints m =
     (if tasks m = [] then [CurrentTasksHeader, NoTasksAvailable]
      else
        (let sorted_tasks = sort_key list_key (tasks m)
         in [CurrentTasksHeader] @ map TaskLine sorted_tasks @ [Footer]))"

definition list_tasks :: "task_manager \<Rightarrow> world \<Rightarrow> world" where
  \<comment> \<open>\<open>TaskManager.list_tasks\<close>\<close>
  "list_tasks m w = w\<lparr>console := console w @ list_tasks_prints m\<rparr>"

fun displayed :: "message list \<Rightarrow> task list" where
  \<comment> \<open>The tasks shown on a console, in the order of their lines.\<close>
  "displayed [] = []"
| "displayed (TaskLine t # ms) = t # displayed ms"
| "displayed (_ # ms) = displayed ms"

fun find_first :: "task list \<Rightarrow> int \<Rightarrow> nat option" where
  \<comment> \<open>The loop of \<open>get_task_by_id\<close>; the task object found is named by its position in the
      list.\<close>
  "find_first [] i = None"
| "find_first (t # ts) i =
     (if task_id t = i then Some 0 else map_option Suc (find_first ts i))"

definition get_task_by_id :: "task_manager \<Rightarrow> int \<Rightarrow> nat option" where
  \<comment> \<open>\<open>TaskManager.get_task_by_id\<close>\<close>
  "get_task_by_id m i = find_first (tasks m) i"

definition mark_task_completed ::
  "int \<Rightarrow> task_manager \<Rightarrow> world \<Rightarrow> bool \<times> task_manager \<times> world" where
  \<comment> \<open>\<open>TaskManager.mark_task_completed\<close>; a task object is always truthy.\<close>
  "mark_task_completed i m w =
     (case get_task_by_id m i of
        Some k \<Rightarrow>
          (case mark_completed (tasks m ! k) of
             (t, out) \<Rightarrow>
               (let m1 = m\<lparr>tasks := (tasks m)[k := t]\<rparr>;
                    w1 = w\<lparr>console := console w @ out\<rparr>;
                    w2 = save_tasks (storage m1) (tasks m1) w1
                in (True, m1, w2)))
      | None \<Rightarrow> (False, m, w\<lparr>console := console w @ [NotFound i]\<rparr>))"

section \<open>Vocabulary of the properties\<close>

definition plain_text :: "string \<Rightarrow> bool" where
  \<comment> \<open>Text without a comma and without a line break.\<close>
  "plain_text s \<longleftrightarrow> CHR '','' \<notin> set s \<and> LF \<notin> set s \<and> CR \<notin> set s"

definition storable :: "task \<Rightarrow> bool" where
  \<comment> \<open>A task whose line in the file reads back as the same task.\<close>
  "storable t \<longleftrightarrow>
     plain_text (description t) \<and>
     (case due_date t of None \<Rightarrow> True | Some d \<Rightarrow> plain_text d \<and> d \<noteq> ''None'') \<and>
     priority t \<in> set valid_priorities"

definition task_fields :: "task \<Rightarrow> string list" where
  "task_fields t =
     [str_int (task_id t), description t, fmt_opt (due_date t), fmt_bool (completed t),
      priority t]"

definition task_body :: "task \<Rightarrow> string" where
  \<comment> \<open>The line of a task without its line end.\<close>
  "task_body t =
     str_int (task_id t) @ '','' @ description t @ '','' @ fmt_opt (due_date t) @ '','' @
     fmt_bool (completed t) @ '','' @ priority t"

definition short_line :: "string \<Rightarrow> bool" where
  \<comment> \<open>A line that splits into fewer than four fields.\<close>
  "short_line line \<longleftrightarrow> length (split_on CHR '','' (strip line)) < 4"

definition loaded_task :: "string \<Rightarrow> task option" where
  \<comment> \<open>The task of a line of at least four fields; \<open>None\<close> when its first field is no
      integer.\<close>
  "loaded_task line =
     (let parts = split_on CHR '','' (strip line) in
      case py_int (parts ! 0) of
        Inl e \<Rightarrow> None
      | Inr tid \<Rightarrow> Some (fst (line_task tid parts)))"

definition shown_before :: "task \<Rightarrow> task \<Rightarrow> bool" where
  \<comment> \<open>The order of two tasks in a listing: open before completed, then the heavier
      priority first.\<close>
  "shown_before a b \<longleftrightarrow>
     (\<not> completed a \<and> completed b) \<or>
     (completed a = completed b \<and> priority_weight a \<ge> priority_weight b)"

datatype call = AddTask string "string option" "string option" | MarkTaskCompleted int

fun do_call :: "call \<Rightarrow> task_manager \<times> world \<Rightarrow> task_manager \<times> world" where
  \<comment> \<open>One call on the manager; the state it leaves, whether it returns or raises.\<close>
  "do_call (AddTask descr due prio) (m, w) = snd (add_task descr due prio m w)"
| "do_call (MarkTaskCompleted i) (m, w) = snd (mark_task_completed i m w)"

fun run_calls :: "call list \<Rightarrow> task_manager \<times> world \<Rightarrow> task_manager \<times> world" where
  "run_calls [] s = s"
| "run_calls (c # cs) s = run_calls cs (do_call c s)"

definition fresh_world :: world where
  \<comment> \<open>No file at all, nothing printed yet.\<close>
  "fresh_world = \<lparr>files = Map.empty, console = []\<rparr>"

definition file_world :: "string \<Rightarrow> string \<Rightarrow> world" where
  \<comment> \<open>One file of the given name and content, nothing printed yet.\<close>
  "file_world name content = \<lparr>files = [name \<mapsto> content], console = []\<rparr>"

definition example_task :: "int \<Rightarrow> string \<Rightarrow> task" where
  \<comment> \<open>An open task of medium priority without a due date.\<close>
  "example_task i descr =
     \<lparr>task_id = i, description = descr, due_date = None, completed = False,
      priority = ''medium''\<rparr>"

definition ids_below_next :: "task_manager \<Rightarrow> bool" where
  \<comment> \<open>\<open>next_id\<close> is above the id of every task of the collection.\<close>
  "ids_below_next m \<longleftrightarrow> (\<forall>t \<in> set (tasks m). task_id t < next_id m)"

definition unique_ids :: "task_manager \<Rightarrow> bool" where
  \<comment> \<open>No two tasks of the collection share an id.\<close>
  "unique_ids m \<longleftrightarrow> distinct (map task_id (tasks m))"

definition example_manager :: task_manager where
  \<comment> \<open>A manager of two open tasks.\<close>
  "example_manager =
     \<lparr>storage = FileTaskStorage_init ''tasks.txt'',
      tasks = [example_task 1 ''Write spec'', example_task 2 ''Clean desk''],
      next_id = 3\<rparr>"

definition listed_manager :: task_manager where
  \<comment> \<open>A manager whose first task is completed and of high priority.\<close>
  "listed_manager =
     \<lparr>storage = FileTaskStorage_init ''tasks.txt'',
      tasks = [\<lparr>task_id = 1, description = ''Write spec'', due_date = Some ''2024-01-01'',
                completed = True, priority = ''high''\<rparr>,
               example_task 2 ''Clean desk''],
      next_id = 3\<rparr>"

section \<open>Integers and lines as text\<close>

lemma is_digit_digit_char: "d < 10 \<Longrightarrow> is_digit (digit_char d)"
  by (simp add: is_digit_def digit_char_def)

lemma digit_val_digit_char: "d < 10 \<Longrightarrow> digit_val (digit_char d) = d"
  by (simp add: digit_val_def digit_char_def)

lemma str_nat_digits: "c \<in> set (str_nat n) \<Longrightarrow> is_digit c"
proof (induction n arbitrary: c rule: str_nat.induct)
  case (1 n)
  show ?case
  proof (cases "n < 10")
    case True
    with "1.prems" show ?thesis
      by (simp add: str_nat.simps [of n] is_digit_digit_char)
  next
    case False
    with "1.prems" "1.IH" show ?thesis
      by (auto simp: str_nat.simps [of n] is_digit_digit_char)
  qed
qed

lemma str_nat_nonempty: "str_nat n \<noteq> []"
  by (subst str_nat.simps) simp

lemma parse_digits_all:
  "\<forall>c \<in> set ds. is_digit c \<Longrightarrow>
   parse_digits acc ds = Some (foldl (\<lambda>a c. 10 * a + digit_val c) acc ds)"
  by (induction acc ds rule: parse_digits.induct) auto

lemma parse_nat_all:
  "ds \<noteq> [] \<Longrightarrow> \<forall>c \<in> set ds. is_digit c \<Longrightarrow>
   parse_nat ds = Some (foldl (\<lambda>a c. 10 * a + digit_val c) 0 ds)"
  by (cases ds) (simp_all add: parse_nat_def parse_digits_all)

lemma foldl_str_nat: "foldl (\<lambda>a c. 10 * a + digit_val c) 0 (str_nat n) = n"
proof (induction n rule: str_nat.induct)
  case (1 n)
  show ?case
  proof (cases "n < 10")
    case True
    then show ?thesis
      by (simp add: str_nat.simps [of n] digit_val_digit_char)
  next
    case False
    with "1.IH" show ?thesis
      by (simp add: str_nat.simps [of n] digit_val_digit_char)
  qed
qed

lemma parse_nat_str_nat: "parse_nat (str_nat n) = Some n"
  by (simp add: parse_nat_all str_nat_nonempty str_nat_digits foldl_str_nat)

lemma is_digit_not_int_space: "is_digit c \<Longrightarrow> \<not> is_int_space c"
  by (auto simp: is_digit_def is_int_space_def Let_def)

lemma is_digit_not_space: "is_digit c \<Longrightarrow> \<not> is_space c"
  by (auto simp: is_digit_def is_space_def Let_def)

lemma is_digit_neq: "is_digit c \<Longrightarrow> c \<noteq> CHR '','' \<and> c \<noteq> LF \<and> c \<noteq> CR \<and> c \<noteq> CHR ''-'' \<and> c \<noteq> CHR ''+''"
  by (auto simp: is_digit_def LF_def CR_def)

lemma dropWhile_hd_id: "s \<noteq> [] \<Longrightarrow> \<not> P (hd s) \<Longrightarrow> dropWhile P s = s"
  by (cases s) auto

lemma strip_gen_id:
  assumes "s \<noteq> []" "\<not> P (hd s)" "\<not> P (last s)"
  shows "rev (dropWhile P (rev (dropWhile P s))) = s"
proof -
  have a: "dropWhile P s = s"
    using assms by (simp add: dropWhile_hd_id)
  have "dropWhile P (rev s) = rev s"
    using assms by (intro dropWhile_hd_id) (simp_all add: hd_rev)
  with a show ?thesis by simp
qed

lemma py_int_str_int: "py_int (str_int i) = Inr i"
proof -
  let ?ds = "str_nat (nat \<bar>i\<bar>)"
  have ne: "?ds \<noteq> []" by (rule str_nat_nonempty)
  have dg: "\<And>c. c \<in> set ?ds \<Longrightarrow> is_digit c" by (rule str_nat_digits)
  have hd_d: "is_digit (hd ?ds)" and last_d: "is_digit (last ?ds)"
    using ne dg by simp_all
  show ?thesis
  proof (cases "i < 0")
    case True
    then have s: "str_int i = CHR ''-'' # ?ds"
      by (simp add: str_int_def)
    have "\<not> is_int_space CHR ''-''"
      by (simp add: is_int_space_def)
    then have "rev (dropWhile is_int_space (rev (dropWhile is_int_space (CHR ''-'' # ?ds)))) =
        CHR ''-'' # ?ds"
      using ne last_d by (intro strip_gen_id) (simp_all add: is_digit_not_int_space)
    then show ?thesis
      using True unfolding py_int_def s Let_def by (simp add: parse_nat_str_nat)
  next
    case False
    then have s: "str_int i = ?ds"
      by (simp add: str_int_def)
    have st: "rev (dropWhile is_int_space (rev (dropWhile is_int_space ?ds))) = ?ds"
      using ne hd_d last_d by (intro strip_gen_id) (simp_all add: is_digit_not_int_space)
    obtain c cs where cs: "?ds = c # cs"
      using ne by (cases ?ds) auto
    then have "is_digit c" using hd_d by simp
    then have c: "c \<noteq> CHR ''-''" "c \<noteq> CHR ''+''"
      using is_digit_neq by blast+
    have p: "parse_nat (c # cs) = Some (nat i)"
      using parse_nat_str_nat [of "nat \<bar>i\<bar>"] cs False by simp
    have st': "rev (dropWhile is_int_space (rev (dropWhile is_int_space (str_int i)))) = c # cs"
      using st cs s by simp
    show ?thesis
      using False c by (simp add: py_int_def st' p)
  qed
qed

lemma split_on_nonempty: "split_on sep s \<noteq> []"
  by (induction s) (auto split: list.splits)

lemma split_on_no_sep: "sep \<notin> set a \<Longrightarrow> split_on sep a = [a]"
  by (induction a) auto

lemma split_on_append:
  "sep \<notin> set a \<Longrightarrow> split_on sep (a @ sep # r) = a # split_on sep r"
  by (induction a) (auto split: list.splits simp: split_on_nonempty)

lemma universal_newlines_id: "CR \<notin> set s \<Longrightarrow> universal_newlines s = s"
  by (induction s rule: universal_newlines.induct) auto

lemma file_lines_line:
  "LF \<notin> set l \<Longrightarrow> file_lines (l @ LF # r) = (l @ [LF]) # file_lines r"
  by (induction l) (auto split: list.splits)

lemma write_tasks_concat: "write_tasks ts buf = buf @ concat (map task_line ts)"
  by (induction ts arbitrary: buf) auto


lemma str_int_chars: "c \<in> set (str_int i) \<Longrightarrow> is_digit c \<or> c = CHR ''-''"
  by (auto simp: str_int_def dest: str_nat_digits split: if_splits)

lemma plain_str_int: "plain_text (str_int i)"
  unfolding plain_text_def
  using str_int_chars [of _ i] is_digit_neq by (auto simp: LF_def CR_def)

lemma plain_fmt_bool: "plain_text (fmt_bool b)"
  by (simp add: plain_text_def fmt_bool_def LF_def CR_def)

lemma plain_priority: "p \<in> set valid_priorities \<Longrightarrow> plain_text p"
  by (auto simp: plain_text_def valid_priorities_def LF_def CR_def)

lemma plain_fmt_due:
  "(case d of None \<Rightarrow> True | Some x \<Rightarrow> plain_text x \<and> x \<noteq> ''None'') \<Longrightarrow> plain_text (fmt_opt d)"
  by (cases d) (simp_all add: fmt_opt_def plain_text_def LF_def CR_def)

lemma storable_fields: "storable t \<Longrightarrow> f \<in> set (task_fields t) \<Longrightarrow> plain_text f"
  by (auto simp: storable_def task_fields_def plain_str_int plain_fmt_bool plain_priority
      plain_fmt_due)

lemma task_line_body: "task_line t = task_body t @ [LF]"
  by (simp add: task_line_def task_body_def)

lemma split_task_body:
  assumes "storable t"
  shows "split_on CHR '','' (task_body t) = task_fields t"
proof -
  have p: "\<And>f. f \<in> set (task_fields t) \<Longrightarrow> CHR '','' \<notin> set f"
    using storable_fields [OF assms] by (simp add: plain_text_def)
  have "CHR '','' \<notin> set (str_int (task_id t))" "CHR '','' \<notin> set (description t)"
    "CHR '','' \<notin> set (fmt_opt (due_date t))" "CHR '','' \<notin> set (fmt_bool (completed t))"
    "CHR '','' \<notin> set (priority t)"
    by (rule p, simp add: task_fields_def)+
  then show ?thesis
    by (simp add: task_body_def task_fields_def split_on_append split_on_no_sep)
qed

lemma task_body_no_breaks:
  assumes "storable t"
  shows "LF \<notin> set (task_body t)" and "CR \<notin> set (task_body t)"
proof -
  have p: "\<And>f. f \<in> set (task_fields t) \<Longrightarrow> LF \<notin> set f \<and> CR \<notin> set f"
    using storable_fields [OF assms] by (simp add: plain_text_def)
  have "LF \<notin> set (str_int (task_id t)) \<and> CR \<notin> set (str_int (task_id t))"
    "LF \<notin> set (description t) \<and> CR \<notin> set (description t)"
    "LF \<notin> set (fmt_opt (due_date t)) \<and> CR \<notin> set (fmt_opt (due_date t))"
    "LF \<notin> set (fmt_bool (completed t)) \<and> CR \<notin> set (fmt_bool (completed t))"
    "LF \<notin> set (priority t) \<and> CR \<notin> set (priority t)"
    by (rule p, simp add: task_fields_def)+
  then show "LF \<notin> set (task_body t)" and "CR \<notin> set (task_body t)"
    by (simp_all add: task_body_def LF_def CR_def)
qed

lemma hd_str_int_not_space: "\<not> is_space (hd (str_int i))"
proof -
  have "hd (str_int i) \<in> set (str_int i)"
    by (simp add: str_int_def str_nat_nonempty)
  then have "is_digit (hd (str_int i)) \<or> hd (str_int i) = CHR ''-''"
    by (rule str_int_chars)
  then show ?thesis
    by (auto simp: is_digit_not_space) (simp add: is_space_def)
qed

lemma strip_task_line:
  assumes "storable t"
  shows "strip (task_line t) = task_body t"
proof -
  have ne: "str_int (task_id t) \<noteq> []"
    by (simp add: str_int_def str_nat_nonempty)
  have h: "\<not> is_space (hd (task_body t))"
    using ne hd_str_int_not_space [of "task_id t"] by (simp add: task_body_def)
  have "priority t \<in> set valid_priorities"
    using assms by (simp add: storable_def)
  then have l: "\<not> is_space (last (task_body t))"
    by (auto simp: task_body_def valid_priorities_def is_space_def)
  have b: "task_body t \<noteq> []"
    using ne by (simp add: task_body_def)
  have d1: "dropWhile is_space (task_body t @ [LF]) = task_body t @ [LF]"
    using b h by (intro dropWhile_hd_id) simp_all
  have "is_space LF"
    by (simp add: is_space_def LF_def)
  then have d2: "dropWhile is_space (rev (task_body t @ [LF])) = rev (task_body t)"
    using b l by (simp add: dropWhile_hd_id hd_rev)
  show ?thesis
    by (simp only: strip_def task_line_body d1 d2 rev_rev_ident)
qed

lemma lower_valid: "p \<in> set valid_priorities \<Longrightarrow> lower p = p"
  by (auto simp: valid_priorities_def lower_def lower_char_def)

lemma Task_init_valid:
  "p \<in> set valid_priorities \<Longrightarrow>
   Task_init i d du c (Some p) =
     (\<lparr>task_id = i, description = d, due_date = du, completed = c, priority = p\<rparr>, [])"
  by (frule lower_valid) (auto simp: Task_init_def valid_priorities_def)

section \<open>Saving and loading\<close>

lemma load_lines_task_line:
  assumes "storable t"
  shows "load_lines (task_line t # rest) loaded out = load_lines rest (loaded @ [t]) out"
proof -
  have parts: "split_on CHR '','' (strip (task_line t)) = task_fields t"
    using assms by (simp add: strip_task_line split_task_body)
  have prio: "priority t \<in> set valid_priorities"
    using assms by (simp add: storable_def)
  have due: "(if fmt_opt (due_date t) \<noteq> ''None'' then Some (fmt_opt (due_date t)) else None) = due_date t"
    using assms by (cases "due_date t") (simp_all add: storable_def fmt_opt_def)
  have cp: "(fmt_bool (completed t) = ''True'') = completed t"
    by (simp add: fmt_bool_def)
  have rec: "\<lparr>task_id = task_id t, description = description t,
           due_date = (if fmt_opt (due_date t) \<noteq> ''None'' then Some (fmt_opt (due_date t)) else None),
           completed = (fmt_bool (completed t) = ''True''), priority = priority t\<rparr> = t"
    by (simp only: due cp) simp
  have "load_lines (task_line t # rest) loaded out =
      load_lines rest
        (loaded @ [\<lparr>task_id = task_id t, description = description t,
           due_date = (if fmt_opt (due_date t) \<noteq> ''None'' then Some (fmt_opt (due_date t)) else None),
           completed = (fmt_bool (completed t) = ''True''), priority = priority t\<rparr>]) out"
    by (simp add: parts task_fields_def py_int_str_int line_task_def Task_init_valid [OF prio] del: if_split
        cong: if_cong)
  then show ?thesis
    unfolding rec .
qed

lemma load_lines_task_lines:
  "\<forall>t \<in> set ts. storable t \<Longrightarrow>
   load_lines (map task_line ts) loaded out = (Inr (loaded @ ts), out)"
  by (induction ts arbitrary: loaded) (simp_all add: load_lines_task_line del: load_lines.simps(2))

lemma file_lines_task_lines:
  "\<forall>t \<in> set ts. storable t \<Longrightarrow> file_lines (concat (map task_line ts)) = map task_line ts"
  by (induction ts) (simp_all add: task_line_body file_lines_line task_body_no_breaks)

lemma universal_newlines_task_lines:
  assumes "\<forall>t \<in> set ts. storable t"
  shows "universal_newlines (concat (map task_line ts)) = concat (map task_line ts)"
proof (rule universal_newlines_id)
  have "CR \<noteq> LF" by (simp add: CR_def LF_def)
  then show "CR \<notin> set (concat (map task_line ts))"
    using assms by (auto simp: task_line_body task_body_no_breaks)
qed

text \<open>
  Claim C1, as amended. Saving a sequence of tasks and loading the same file gives back
  the same sequence (same length, same order, every field of every task equal, an
  absent due date absent again), and prints nothing more, provided every task is
  storable: its description and its due date hold no comma and no line break, its due
  date is not the text \<open>None\<close>, and its priority is one of low, medium, high. The id
  may be any integer, and the description may be empty.
\<close>

theorem save_load_roundtrip:
  assumes "\<forall>t \<in> set ts. storable t"
  shows "load_tasks st (save_tasks st ts w) = (Inr ts, save_tasks st ts w)"
  using assms
  by (simp add: load_tasks_def save_tasks_def write_tasks_concat universal_newlines_task_lines
      file_lines_task_lines load_lines_task_lines)


text \<open>The round trip of two storable tasks, one of them completed and with a due date.\<close>

theorem save_load_roundtrip_witness:
  "storable (example_task 1 ''Write spec'') \<and>
   storable \<lparr>task_id = 2, description = ''Clean desk'', due_date = Some ''2024-01-01'',
             completed = True, priority = ''high''\<rparr> \<and>
   load_tasks (FileTaskStorage_init ''tasks.txt'')
     (save_tasks (FileTaskStorage_init ''tasks.txt'')
        [example_task 1 ''Write spec'',
         \<lparr>task_id = 2, description = ''Clean desk'', due_date = Some ''2024-01-01'',
          completed = True, priority = ''high''\<rparr>] fresh_world) =
   (Inr [example_task 1 ''Write spec'',
         \<lparr>task_id = 2, description = ''Clean desk'', due_date = Some ''2024-01-01'',
          completed = True, priority = ''high''\<rparr>],
    save_tasks (FileTaskStorage_init ''tasks.txt'')
        [example_task 1 ''Write spec'',
         \<lparr>task_id = 2, description = ''Clean desk'', due_date = Some ''2024-01-01'',
          completed = True, priority = ''high''\<rparr>] fresh_world)"
proof -
  have s: "\<forall>t \<in> set [example_task 1 ''Write spec'',
                 \<lparr>task_id = 2, description = ''Clean desk'', due_date = Some ''2024-01-01'',
                  completed = True, priority = ''high''\<rparr>]. storable t"
    by (simp add: storable_def example_task_def plain_text_def valid_priorities_def LF_def
        CR_def)
  show ?thesis
    using s save_load_roundtrip [OF s] by simp
qed

text \<open>
  Claim C1 as first stated asks only for a positive id, a non-empty description and a
  priority among low, medium, high. The task 1 with the description \<open>Buy milk, eggs\<close>
  is such a task; its line splits at the comma of the description, and what is loaded is
  a task \<open>Buy milk\<close> due \<open> eggs\<close>.
\<close>

theorem save_load_roundtrip_counterexample:
  "0 < task_id (example_task 1 ''Buy milk, eggs'') \<and>
   description (example_task 1 ''Buy milk, eggs'') \<noteq> [] \<and>
   priority (example_task 1 ''Buy milk, eggs'') \<in> set valid_priorities \<and>
   fst (load_tasks (FileTaskStorage_init ''tasks.txt'')
          (save_tasks (FileTaskStorage_init ''tasks.txt'')
             [example_task 1 ''Buy milk, eggs''] fresh_world)) =
     Inr [\<lparr>task_id = 1, description = ''Buy milk'', due_date = Some '' eggs'',
           completed = False, priority = ''medium''\<rparr>] \<and>
   fst (load_tasks (FileTaskStorage_init ''tasks.txt'')
          (save_tasks (FileTaskStorage_init ''tasks.txt'')
             [example_task 1 ''Buy milk, eggs''] fresh_world)) \<noteq>
     Inr [example_task 1 ''Buy milk, eggs'']"
  by code_simp


text \<open>
  The other conditions of a storable task are needed as well. A line break in the
  description makes two lines of the task, the second with the rest of the description
  as its first field; a due date that is the text \<open>None\<close> is loaded as absent; a comma
  in the due date shifts the fields after it.
\<close>

lemma roundtrip_needs_one_line:
  "fst (load_tasks (FileTaskStorage_init ''tasks.txt'')
          (save_tasks (FileTaskStorage_init ''tasks.txt'')
             [example_task 1 ''Buy milk\<newline>and eggs''] fresh_world)) = Inl ValueError"
  by code_simp

lemma roundtrip_needs_due_date_not_None:
  "fst (load_tasks (FileTaskStorage_init ''tasks.txt'')
          (save_tasks (FileTaskStorage_init ''tasks.txt'')
             [\<lparr>task_id = 1, description = ''Buy milk'', due_date = Some ''None'',
               completed = False, priority = ''low''\<rparr>] fresh_world)) =
     Inr [\<lparr>task_id = 1, description = ''Buy milk'', due_date = None,
           completed = False, priority = ''low''\<rparr>]"
  by code_simp

lemma roundtrip_needs_due_date_without_comma:
  "fst (load_tasks (FileTaskStorage_init ''tasks.txt'')
          (save_tasks (FileTaskStorage_init ''tasks.txt'')
             [\<lparr>task_id = 1, description = ''Buy milk'', due_date = Some ''Aug 10, 2024'',
               completed = True, priority = ''low''\<rparr>] fresh_world)) =
     Inr [\<lparr>task_id = 1, description = ''Buy milk'', due_date = Some ''Aug 10'',
           completed = False, priority = ''medium''\<rparr>]"
  by code_simp

section \<open>The priority of a task\<close>

text \<open>
  Claim C6. A priority text whose lowercase form is low, medium or high, in any letter
  case, is stored as that lowercase form; any other text is stored as medium, and so
  are an absent priority and the empty text; whatever the input, the priority of the
  constructed task is one of low, medium, high.
\<close>

theorem Task_init_priority:
  "(lower s \<in> {''low'', ''medium'', ''high''} \<longrightarrow>
      priority (fst (Task_init i d du c (Some s))) = lower s) \<and>
   (lower s' \<notin> {''low'', ''medium'', ''high''} \<longrightarrow>
      priority (fst (Task_init i d du c (Some s'))) = ''medium'') \<and>
   priority (fst (Task_init i d du c None)) = ''medium'' \<and>
   priority (fst (Task_init i d du c (Some ''''))) = ''medium'' \<and>
   priority (fst (Task_init i d du c p)) \<in> {''low'', ''medium'', ''high''}"
  by (auto simp: Task_init_def valid_priorities_def lower_def Let_def split: option.splits)

text \<open>The priorities \<open>HiGh\<close>, \<open>urgent\<close> and an absent one.\<close>

theorem Task_init_priority_witness:
  "lower ''HiGh'' \<in> {''low'', ''medium'', ''high''} \<and>
   priority (fst (Task_init 1 ''Write spec'' None False (Some ''HiGh''))) = ''high'' \<and>
   lower ''urgent'' \<notin> {''low'', ''medium'', ''high''} \<and>
   priority (fst (Task_init 1 ''Write spec'' None False (Some ''urgent''))) = ''medium'' \<and>
   priority (fst (Task_init 1 ''Write spec'' None False None)) = ''medium''"
proof -
  have a: "lower ''HiGh'' = ''high''" by code_simp
  have b: "lower ''urgent'' = ''urgent''" by code_simp
  show ?thesis
    using Task_init_priority [of "''HiGh''" 1 "''Write spec''" None False "''urgent''" None]
    by (simp add: a b)
qed

section \<open>A missing file\<close>

text \<open>
  Claim C9. When the file of the storage does not exist, \<open>load_tasks\<close> returns the
  empty sequence and raises nothing; all it does is print that no file was found. A
  manager constructed over the missing file has an empty collection and \<open>next_id = 1\<close>.
\<close>

theorem load_missing_file:
  assumes "files w (filename st) = None"
  shows "load_tasks st w = (Inr [], w\<lparr>console := console w @ [NoExistingFile (filename st)]\<rparr>) \<and>
    TaskManager_init st w =
      (Inr \<lparr>storage = st, tasks = [], next_id = 1\<rparr>,
       w\<lparr>console := console w @ [NoExistingFile (filename st), Loaded 0 1]\<rparr>)"
  using assms by (simp add: load_tasks_def TaskManager_init_def)

text \<open>A world without any file, and the storage of the demonstration.\<close>

theorem load_missing_file_witness:
  "files fresh_world (filename (FileTaskStorage_init ''my_tasks.txt'')) = None \<and>
   load_tasks (FileTaskStorage_init ''my_tasks.txt'') fresh_world =
     (Inr [], \<lparr>files = Map.empty, console = [NoExistingFile ''my_tasks.txt'']\<rparr>) \<and>
   TaskManager_init (FileTaskStorage_init ''my_tasks.txt'') fresh_world =
     (Inr \<lparr>storage = FileTaskStorage_init ''my_tasks.txt'', tasks = [], next_id = 1\<rparr>,
      \<lparr>files = Map.empty, console = [NoExistingFile ''my_tasks.txt'', Loaded 0 1]\<rparr>)"
proof -
  have h: "files fresh_world (filename (FileTaskStorage_init ''my_tasks.txt'')) = None"
    by (simp add: fresh_world_def)
  show ?thesis
    using h load_missing_file [OF h]
    by (simp add: fresh_world_def FileTaskStorage_init_def)
qed

section \<open>Adding a task\<close>

text \<open>
  Claim C3 holds for every call whose priority argument is text: the task is built with
  the id \<open>next_id\<close>, appended, \<open>next_id\<close> grows by one, the whole collection is saved
  and the task is returned.
\<close>

lemma add_task_text_priority:
  "\<exists>t. add_task descr due (Some p) m w =
         (Inr t, m\<lparr>tasks := tasks m @ [t], next_id := next_id m + 1\<rparr>,
          (save_tasks (storage m) (tasks m @ [t])
             (w\<lparr>console := console w @ snd (Task_init (next_id m) descr due False (Some p))\<rparr>))
          \<lparr>console := console w @ snd (Task_init (next_id m) descr due False (Some p)) @
              [TasksSaved (filename (storage m)), TaskAdded descr (upper p)]\<rparr>) \<and>
       task_id t = next_id m \<and> description t = descr \<and> due_date t = due \<and> \<not> completed t"
  by (auto simp: add_task_def Task_init_def save_tasks_def Let_def)

text \<open>
  Claim C3, at the input where the code fails it. With the priority passed as \<open>None\<close>,
  which the task constructor accepts, \<open>add_task\<close> appends the task under id 1, raises
  \<open>next_id\<close> to 2 and writes the file, and then raises \<open>AttributeError\<close> instead of
  returning the task.
\<close>

theorem add_task_raises_after_saving:
  "fst (add_task ''Clean desk'' None None
         \<lparr>storage = FileTaskStorage_init ''tasks.txt'', tasks = [], next_id = 1\<rparr>
         fresh_world) = Inl AttributeError \<and>
   tasks (fst (snd (add_task ''Clean desk'' None None
         \<lparr>storage = FileTaskStorage_init ''tasks.txt'', tasks = [], next_id = 1\<rparr>
         fresh_world))) = [example_task 1 ''Clean desk''] \<and>
   next_id (fst (snd (add_task ''Clean desk'' None None
         \<lparr>storage = FileTaskStorage_init ''tasks.txt'', tasks = [], next_id = 1\<rparr>
         fresh_world))) = 2 \<and>
   files (snd (snd (add_task ''Clean desk'' None None
         \<lparr>storage = FileTaskStorage_init ''tasks.txt'', tasks = [], next_id = 1\<rparr>
         fresh_world))) ''tasks.txt'' = Some ''1,Clean desk,None,False,medium\<newline>''"
  by code_simp

text \<open>
  Claim C10, as amended. For every call of \<open>add_task\<close> with the priority \<open>None\<close>: the
  task is built with priority medium, appended to the collection, \<open>next_id\<close> grows by
  one and the collection is saved; then the call raises \<open>AttributeError\<close> (the
  confirmation message asks \<open>None\<close> for \<open>upper\<close>) and returns no task.
\<close>

theorem add_task_absent_priority:
  "add_task descr due None m w =
     (Inl AttributeError,
      m\<lparr>tasks := tasks m @ [\<lparr>task_id = next_id m, description = descr, due_date = due,
                               completed = False, priority = ''medium''\<rparr>],
        next_id := next_id m + 1\<rparr>,
      save_tasks (storage m)
        (tasks m @ [\<lparr>task_id = next_id m, description = descr, due_date = due,
                     completed = False, priority = ''medium''\<rparr>]) w)"
  by (simp add: add_task_def Task_init_def valid_priorities_def)

text \<open>
  Claim C10 as first stated names the exception \<open>TypeError\<close>. A missing attribute of
  \<open>None\<close> is an \<open>AttributeError\<close>; the call below does not raise \<open>TypeError\<close>.
\<close>

theorem add_task_absent_priority_counterexample:
  "fst (add_task ''Organize workspace'' None None
         \<lparr>storage = FileTaskStorage_init ''my_tasks.txt'', tasks = [], next_id = 1\<rparr>
         fresh_world) \<noteq> Inl TypeError"
  by (simp add: add_task_def Task_init_def valid_priorities_def)

section \<open>Completing a task\<close>

lemma find_first_Some:
  "find_first ts i = Some k \<Longrightarrow>
   k < length ts \<and> task_id (ts ! k) = i \<and> (\<forall>j < k. task_id (ts ! j) \<noteq> i)"
proof (induction ts arbitrary: k)
  case Nil
  then show ?case by simp
next
  case (Cons t ts)
  show ?case
  proof (cases "task_id t = i")
    case True
    with Cons.prems show ?thesis by simp
  next
    case False
    with Cons.prems obtain k' where k': "find_first ts i = Some k'" "k = Suc k'"
      by auto
    from Cons.IH [OF k'(1)] False k'(2) show ?thesis
      by (auto simp: less_Suc_eq_0_disj)
  qed
qed

lemma find_first_None: "find_first ts i = None \<longleftrightarrow> (\<forall>t \<in> set ts. task_id t \<noteq> i)"
  by (induction ts) auto

text \<open>
  Claim C4. If some task of the collection has the id, \<open>mark_task_completed\<close> returns
  true, the first task with that id is completed and every other task is as before, and
  the file holds the lines of the whole collection. If no task has the id, it returns
  false (it raises nothing), and the manager, its collection included, is unchanged; the
  file is not written.
\<close>

theorem mark_task_completed_result:
  "((\<exists>t \<in> set (tasks m). task_id t = i) \<longrightarrow>
      (\<exists>k < length (tasks m).
         task_id (tasks m ! k) = i \<and> (\<forall>j < k. task_id (tasks m ! j) \<noteq> i) \<and>
         mark_task_completed i m w =
           (True,
            m\<lparr>tasks := (tasks m)[k := (tasks m ! k)\<lparr>completed := True\<rparr>]\<rparr>,
            save_tasks (storage m) ((tasks m)[k := (tasks m ! k)\<lparr>completed := True\<rparr>])
              (w\<lparr>console := console w @ [MarkedCompleted i (description (tasks m ! k))]\<rparr>)) \<and>
         files (snd (snd (mark_task_completed i m w))) (filename (storage m)) =
           Some (concat (map task_line ((tasks m)[k := (tasks m ! k)\<lparr>completed := True\<rparr>]))))) \<and>
   ((\<forall>t \<in> set (tasks m). task_id t \<noteq> i) \<longrightarrow>
      mark_task_completed i m w = (False, m, w\<lparr>console := console w @ [NotFound i]\<rparr>))"
proof (intro conjI impI)
  assume "\<exists>t \<in> set (tasks m). task_id t = i"
  then have "find_first (tasks m) i \<noteq> None"
    by (simp add: find_first_None)
  then obtain k where k: "find_first (tasks m) i = Some k"
    by auto
  note p = find_first_Some [OF k]
  have r: "mark_task_completed i m w =
      (True,
       m\<lparr>tasks := (tasks m)[k := (tasks m ! k)\<lparr>completed := True\<rparr>]\<rparr>,
       save_tasks (storage m) ((tasks m)[k := (tasks m ! k)\<lparr>completed := True\<rparr>])
         (w\<lparr>console := console w @ [MarkedCompleted i (description (tasks m ! k))]\<rparr>))"
    using p by (simp add: mark_task_completed_def get_task_by_id_def k mark_completed_def)
  have f: "files (snd (snd (mark_task_completed i m w))) (filename (storage m)) =
      Some (concat (map task_line ((tasks m)[k := (tasks m ! k)\<lparr>completed := True\<rparr>])))"
    unfolding r by (simp add: save_tasks_def write_tasks_concat)
  show "\<exists>k < length (tasks m).
         task_id (tasks m ! k) = i \<and> (\<forall>j < k. task_id (tasks m ! j) \<noteq> i) \<and>
         mark_task_completed i m w =
           (True,
            m\<lparr>tasks := (tasks m)[k := (tasks m ! k)\<lparr>completed := True\<rparr>]\<rparr>,
            save_tasks (storage m) ((tasks m)[k := (tasks m ! k)\<lparr>completed := True\<rparr>])
              (w\<lparr>console := console w @ [MarkedCompleted i (description (tasks m ! k))]\<rparr>)) \<and>
         files (snd (snd (mark_task_completed i m w))) (filename (storage m)) =
           Some (concat (map task_line ((tasks m)[k := (tasks m ! k)\<lparr>completed := True\<rparr>])))"
    using p r f by blast
next
  assume "\<forall>t \<in> set (tasks m). task_id t \<noteq> i"
  then have "find_first (tasks m) i = None"
    by (simp add: find_first_None)
  then show "mark_task_completed i m w = (False, m, w\<lparr>console := console w @ [NotFound i]\<rparr>)"
    by (simp add: mark_task_completed_def get_task_by_id_def)
qed

text \<open>Marking task 2 of two tasks, and the unknown id 7.\<close>

theorem mark_task_completed_result_witness:
  "(\<exists>t \<in> set (tasks example_manager). task_id t = 2) \<and>
   fst (mark_task_completed 2 example_manager fresh_world) = True \<and>
   map completed (tasks (fst (snd (mark_task_completed 2 example_manager fresh_world)))) =
     [False, True] \<and>
   files (snd (snd (mark_task_completed 2 example_manager fresh_world))) ''tasks.txt'' =
     Some ''1,Write spec,None,False,medium\<newline>2,Clean desk,None,True,medium\<newline>'' \<and>
   \<not> (\<exists>t \<in> set (tasks example_manager). task_id t = 7) \<and>
   mark_task_completed 7 example_manager fresh_world =
     (False, example_manager, fresh_world\<lparr>console := [NotFound 7]\<rparr>)"
proof -
  have e: "\<exists>t \<in> set (tasks example_manager). task_id t = 2"
    by (simp add: example_manager_def example_task_def)
  have n: "\<forall>t \<in> set (tasks example_manager). task_id t \<noteq> 7"
    by (simp add: example_manager_def example_task_def)
  have c: "console fresh_world = []"
    by (simp add: fresh_world_def)
  have a: "fst (mark_task_completed 2 example_manager fresh_world) = True"
    using mark_task_completed_result [of example_manager 2 fresh_world] e by auto
  have b: "mark_task_completed 7 example_manager fresh_world =
     (False, example_manager, fresh_world\<lparr>console := [NotFound 7]\<rparr>)"
    using mark_task_completed_result [of example_manager 7 fresh_world] n c by simp
  have d: "map completed (tasks (fst (snd (mark_task_completed 2 example_manager fresh_world)))) =
     [False, True]"
    by code_simp
  have f: "files (snd (snd (mark_task_completed 2 example_manager fresh_world))) ''tasks.txt'' =
     Some ''1,Write spec,None,False,medium\<newline>2,Clean desk,None,True,medium\<newline>''"
    by code_simp
  show ?thesis
    using e n a b d f by simp
qed

section \<open>Listing the tasks\<close>

lemma displayed_TaskLines: "displayed (map TaskLine ts @ ms) = ts @ displayed ms"
  by (induction ts) auto

lemma displayed_list_tasks: "displayed (list_tasks_prints m) = sort_key list_key (tasks m)"
  using displayed_TaskLines [of "sort_key list_key (tasks m)" "[Footer]"]
  by (simp add: list_tasks_prints_def)

lemma list_key_le: "list_key a \<le> list_key b \<Longrightarrow> shown_before a b"
  by (auto simp: list_key_def shown_before_def less_eq_prod_def)

lemma priority_weight_cases:
  "priority_weight t =
     (if priority t = ''high'' then 3 else if priority t = ''medium'' then 2
      else if priority t = ''low'' then 1 else 2)"
  by (simp add: priority_weight_def priority_order_def)

text \<open>
  Claim C5. \<open>list_tasks\<close> adds its listing to the console. Of any two tasks displayed,
  the one displayed first is either open while the other is completed, or of the same
  completion state and of a priority weight at least as large, with the weights high 3,
  medium 2, low 1 and anything else 2. Tasks of equal key, that is of equal completion
  state and weight, are displayed in the order of the collection, and the tasks
  displayed are exactly those of the collection.
\<close>

theorem list_tasks_order:
  "console (list_tasks m w) = console w @ list_tasks_prints m \<and>
   (\<forall>i j. i < j \<and> j < length (displayed (list_tasks_prints m)) \<longrightarrow>
      shown_before (displayed (list_tasks_prints m) ! i) (displayed (list_tasks_prints m) ! j)) \<and>
   (\<forall>k. filter (\<lambda>t. list_key t = k) (displayed (list_tasks_prints m)) =
        filter (\<lambda>t. list_key t = k) (tasks m)) \<and>
   mset (displayed (list_tasks_prints m)) = mset (tasks m) \<and>
   (\<forall>t. priority_weight t =
      (if priority t = ''high'' then 3 else if priority t = ''medium'' then 2
       else if priority t = ''low'' then 1 else 2)) \<and>
   (\<forall>a b. list_key a = list_key b \<longleftrightarrow>
      completed a = completed b \<and> priority_weight a = priority_weight b)"
proof -
  let ?ds = "sort_key list_key (tasks m)"
  have "sorted (map list_key ?ds)"
    by (rule sorted_sort_key)
  then have "sorted_wrt (\<lambda>a b. list_key a \<le> list_key b) ?ds"
    by (simp add: sorted_wrt_map)
  then have "sorted_wrt shown_before ?ds"
    by (rule sorted_wrt_mono_rel [rotated]) (simp add: list_key_le)
  then have o: "\<forall>i j. i < j \<and> j < length ?ds \<longrightarrow> shown_before (?ds ! i) (?ds ! j)"
    by (simp add: sorted_wrt_iff_nth_less)
  have k: "\<forall>a b. list_key a = list_key b \<longleftrightarrow>
      completed a = completed b \<and> priority_weight a = priority_weight b"
    by (simp add: list_key_def)
  show ?thesis
    unfolding displayed_list_tasks
    using o k by (simp add: list_tasks_def sort_key_stable priority_weight_cases)
qed

text \<open>A completed task of high priority is listed after an open one of medium priority.\<close>

theorem list_tasks_order_witness:
  "(0::nat) < 1 \<and> 1 < length (displayed (list_tasks_prints listed_manager)) \<and>
   map task_id (displayed (list_tasks_prints listed_manager)) = [2, 1] \<and>
   shown_before (displayed (list_tasks_prints listed_manager) ! 0)
     (displayed (list_tasks_prints listed_manager) ! 1)"
proof -
  have l: "map task_id (displayed (list_tasks_prints listed_manager)) = [2, 1]"
    by code_simp
  then have "length (map task_id (displayed (list_tasks_prints listed_manager))) = 2"
    by simp
  then have n: "1 < length (displayed (list_tasks_prints listed_manager))"
    by simp
  show ?thesis
    using l n list_tasks_order [of listed_manager fresh_world] by simp
qed

section \<open>Lines of four fields and shorter lines\<close>

lemma load_lines_four_fields:
  assumes "split_on CHR '','' (strip line) = [a, b, c, d]" and "py_int a = Inr n"
  shows "load_lines (line # rest) loaded out =
     load_lines rest
       (loaded @ [\<lparr>task_id = n, description = b,
                    due_date = (if c = ''None'' then None else Some c),
                    completed = (d = ''True''), priority = ''medium''\<rparr>]) out"
proof -
  have "lower ''medium'' = ''medium''"
    by (simp add: lower_def lower_char_def)
  then have "line_task n [a, b, c, d] =
      (\<lparr>task_id = n, description = b, due_date = (if c = ''None'' then None else Some c),
        completed = (d = ''True''), priority = ''medium''\<rparr>, [])"
    by (simp add: line_task_def Task_init_def valid_priorities_def)
  then show ?thesis
    using assms by simp
qed

lemma parse_free_error: "py_int s = Inl e \<Longrightarrow> e = ValueError"
  by (auto simp: py_int_def Let_def split: list.splits if_splits option.splits)

lemma load_lines_skip:
  "load_lines ls loaded out = load_lines (filter (\<lambda>l. \<not> short_line l) ls) loaded out"
proof (induction ls arbitrary: loaded out)
  case Nil
  show ?case by simp
next
  case (Cons l ls)
  show ?case
  proof (cases "short_line l")
    case True
    then show ?thesis
      using Cons.IH by (simp add: short_line_def)
  next
    case False
    then show ?thesis
      by (simp add: short_line_def Let_def Cons.IH split: sum.splits prod.splits)
  qed
qed

lemma load_lines_Inr:
  "fst (load_lines ls loaded out) = Inr ts \<longleftrightarrow>
   (\<exists>ts'. ts = loaded @ ts' \<and> map loaded_task (filter (\<lambda>l. \<not> short_line l) ls) = map Some ts')"
proof (induction ls arbitrary: loaded out)
  case Nil
  show ?case by auto
next
  case (Cons l ls)
  show ?case
  proof (cases "short_line l")
    case True
    then show ?thesis
      using Cons.IH by (simp add: short_line_def)
  next
    case False
    show ?thesis
    proof (cases "py_int (split_on CHR '','' (strip l) ! 0)")
      case (Inl e)
      with False show ?thesis
        by (auto simp: short_line_def loaded_task_def)
    next
      case (Inr tid)
      obtain t warn where lt: "line_task tid (split_on CHR '','' (strip l)) = (t, warn)"
        by (cases "line_task tid (split_on CHR '','' (strip l))")
      have lo: "loaded_task l = Some t"
        by (simp add: loaded_task_def Inr lt)
      have "fst (load_lines (l # ls) loaded out) = fst (load_lines ls (loaded @ [t]) (out @ warn))"
        using False by (simp add: short_line_def Inr lt)
      also have "\<dots> = Inr ts \<longleftrightarrow>
          (\<exists>ts'. ts = (loaded @ [t]) @ ts' \<and>
             map loaded_task (filter (\<lambda>l. \<not> short_line l) ls) = map Some ts')"
        by (rule Cons.IH)
      also have "\<dots> \<longleftrightarrow>
          (\<exists>ts'. ts = loaded @ ts' \<and>
             map loaded_task (filter (\<lambda>l. \<not> short_line l) (l # ls)) = map Some ts')"
        using False lo by (auto simp: Cons_eq_map_conv)
      finally show ?thesis .
    qed
  qed
qed

lemma load_lines_Inl:
  "fst (load_lines ls loaded out) = Inl e \<longleftrightarrow>
   e = ValueError \<and> (\<exists>l \<in> set ls. \<not> short_line l \<and> loaded_task l = None)"
proof (induction ls arbitrary: loaded out)
  case Nil
  show ?case by simp
next
  case (Cons l ls)
  show ?case
  proof (cases "short_line l")
    case True
    then show ?thesis
      using Cons.IH by (auto simp: short_line_def)
  next
    case False
    show ?thesis
    proof (cases "py_int (split_on CHR '','' (strip l) ! 0)")
      case (Inl e')
      then have "e' = ValueError" by (rule parse_free_error)
      with False Inl show ?thesis
        by (auto simp: short_line_def loaded_task_def)
    next
      case (Inr tid)
      obtain t warn where lt: "line_task tid (split_on CHR '','' (strip l)) = (t, warn)"
        by (cases "line_task tid (split_on CHR '','' (strip l))")
      have lo: "loaded_task l = Some t"
        by (simp add: loaded_task_def Inr lt)
      have "fst (load_lines (l # ls) loaded out) = fst (load_lines ls (loaded @ [t]) (out @ warn))"
        using False by (simp add: short_line_def Inr lt)
      then show ?thesis
        using Cons.IH [of "loaded @ [t]" "out @ warn"] lo by auto
    qed
  qed
qed

lemma map_Some_split:
  "xs @ Some t # ys = map Some ts \<Longrightarrow>
   \<exists>ts1 ts2. ts = ts1 @ t # ts2 \<and> xs = map Some ts1 \<and> ys = map Some ts2"
proof (induction xs arbitrary: ts)
  case Nil
  then obtain z zs where z: "ts = z # zs" "Some t = Some z" "ys = map Some zs"
    by (cases ts) auto
  show ?case
  proof (intro exI conjI)
    show "ts = [] @ t # zs" using z by simp
    show "[] = map Some []" by simp
    show "ys = map Some zs" by (rule z(3))
  qed
next
  case (Cons x xs)
  then obtain z zs where z: "ts = z # zs" "x = Some z" "xs @ Some t # ys = map Some zs"
    by (cases ts) auto
  from Cons.IH [OF z(3)] obtain ts1 ts2 where
    i: "zs = ts1 @ t # ts2" "xs = map Some ts1" "ys = map Some ts2"
    by (elim exE conjE)
  show ?case
  proof (intro exI conjI)
    show "ts = (z # ts1) @ t # ts2" using z i by simp
    show "x # xs = map Some (z # ts1)" using z i by simp
    show "ys = map Some ts2" by (rule i(3))
  qed
qed

lemma loaded_task_four_fields:
  assumes "split_on CHR '','' (strip line) = [a, b, c, d]" and "py_int a = Inr n"
  shows "\<not> short_line line"
    and "loaded_task line =
      Some \<lparr>task_id = n, description = b,
            due_date = (if c = ''None'' then None else Some c),
            completed = (d = ''True''), priority = ''medium''\<rparr>"
proof -
  show "\<not> short_line line"
    using assms by (simp add: short_line_def)
  have "lower ''medium'' = ''medium''"
    by (simp add: lower_def lower_char_def)
  then have "line_task n [a, b, c, d] =
      (\<lparr>task_id = n, description = b, due_date = (if c = ''None'' then None else Some c),
        completed = (d = ''True''), priority = ''medium''\<rparr>, [])"
    by (simp add: line_task_def Task_init_def valid_priorities_def)
  then show "loaded_task line =
      Some \<lparr>task_id = n, description = b,
            due_date = (if c = ''None'' then None else Some c),
            completed = (d = ''True''), priority = ''medium''\<rparr>"
    using assms by (simp add: loaded_task_def)
qed

text \<open>
  Claim C7. Take any file and any of its lines that has exactly four fields, the first
  of which reads as the integer id. \<open>load_tasks\<close> accepts the line: whenever it returns
  a sequence, the sequence holds, between the tasks of the lines before and the tasks of
  the lines after, the task of that id with the second field as description, the third
  as due date (absent for \<open>None\<close>), completed when the fourth is \<open>True\<close>, and priority
  medium; it returns exactly when the other lines of at least four fields have an integer
  first field, so the line itself never makes it raise. When the line is the whole file,
  \<open>load_tasks\<close> returns just that task and prints nothing.
\<close>

theorem load_four_field_line:
  assumes "files w (filename st) = Some content"
    and "file_lines (universal_newlines content) = before @ line # after"
    and "split_on CHR '','' (strip line) = [a, b, c, d]"
    and "py_int a = Inr n"
  shows
    "(fst (load_tasks st w) = Inr ts \<longleftrightarrow>
       (\<exists>ts1 ts2.
          ts = ts1 @ \<lparr>task_id = n, description = b,
                      due_date = (if c = ''None'' then None else Some c),
                      completed = (d = ''True''), priority = ''medium''\<rparr> # ts2 \<and>
          map loaded_task (filter (\<lambda>l. \<not> short_line l) before) = map Some ts1 \<and>
          map loaded_task (filter (\<lambda>l. \<not> short_line l) after) = map Some ts2)) \<and>
     (fst (load_tasks st w) = Inl e \<longleftrightarrow>
        e = ValueError \<and>
        (\<exists>l \<in> set (before @ after). \<not> short_line l \<and> loaded_task l = None)) \<and>
     (before = [] \<and> after = [] \<longrightarrow>
        load_tasks st w =
          (Inr [\<lparr>task_id = n, description = b,
                  due_date = (if c = ''None'' then None else Some c),
                  completed = (d = ''True''), priority = ''medium''\<rparr>], w))"
proof -
  let ?t = "\<lparr>task_id = n, description = b,
             due_date = (if c = ''None'' then None else Some c),
             completed = (d = ''True''), priority = ''medium''\<rparr>"
  let ?long = "\<lambda>l. \<not> short_line l"
  note ns = loaded_task_four_fields(1) [OF assms(3,4)]
  note lt = loaded_task_four_fields(2) [OF assms(3,4)]
  have f: "fst (load_tasks st w) = fst (load_lines (before @ line # after) [] (console w))"
    using assms(1,2) by (simp add: load_tasks_def split: prod.splits)
  have m: "map loaded_task (filter ?long (before @ line # after)) =
      map loaded_task (filter ?long before) @ Some ?t # map loaded_task (filter ?long after)"
    using ns lt by simp
  have "fst (load_tasks st w) = Inr ts \<longleftrightarrow>
      map loaded_task (filter ?long (before @ line # after)) = map Some ts"
    unfolding f load_lines_Inr append_Nil by blast
  then have c: "fst (load_tasks st w) = Inr ts \<longleftrightarrow>
      map loaded_task (filter ?long before) @ Some ?t # map loaded_task (filter ?long after) =
      map Some ts"
    unfolding m .
  have 1: "fst (load_tasks st w) = Inr ts \<longleftrightarrow>
       (\<exists>ts1 ts2. ts = ts1 @ ?t # ts2 \<and>
          map loaded_task (filter ?long before) = map Some ts1 \<and>
          map loaded_task (filter ?long after) = map Some ts2)"
  proof
    assume "fst (load_tasks st w) = Inr ts"
    then have "map loaded_task (filter ?long before) @ Some ?t #
        map loaded_task (filter ?long after) = map Some ts"
      using c by blast
    then show "\<exists>ts1 ts2. ts = ts1 @ ?t # ts2 \<and>
          map loaded_task (filter ?long before) = map Some ts1 \<and>
          map loaded_task (filter ?long after) = map Some ts2"
      by (rule map_Some_split)
  next
    assume "\<exists>ts1 ts2. ts = ts1 @ ?t # ts2 \<and>
          map loaded_task (filter ?long before) = map Some ts1 \<and>
          map loaded_task (filter ?long after) = map Some ts2"
    then obtain ts1 ts2 where "ts = ts1 @ ?t # ts2"
        "map loaded_task (filter ?long before) = map Some ts1"
        "map loaded_task (filter ?long after) = map Some ts2"
      by (elim exE conjE)
    then have "map loaded_task (filter ?long before) @ Some ?t #
        map loaded_task (filter ?long after) = map Some ts"
      by simp
    then show "fst (load_tasks st w) = Inr ts"
      using c by blast
  qed
  have 2: "fst (load_tasks st w) = Inl e \<longleftrightarrow>
        e = ValueError \<and>
        (\<exists>l \<in> set (before @ after). \<not> short_line l \<and> loaded_task l = None)"
    unfolding f load_lines_Inl using lt by auto
  have 3: "before = [] \<and> after = [] \<longrightarrow> load_tasks st w = (Inr [?t], w)"
  proof
    assume "before = [] \<and> after = []"
    then have "file_lines (universal_newlines content) = [line]"
      using assms(2) by simp
    moreover have "load_lines [line] [] (console w) = (Inr [?t], console w)"
      using load_lines_four_fields [OF assms(3,4), of "[]" "[]" "console w"] by simp
    ultimately show "load_tasks st w = (Inr [?t], w)"
      using assms(1) by (simp add: load_tasks_def)
  qed
  show ?thesis
    by (intro conjI 1 2 3)
qed

text \<open>The line \<open>5,Buy milk,None,False\<close> as the only line of a file.\<close>

theorem load_four_field_line_witness:
  "files (file_world ''tasks.txt'' ''5,Buy milk,None,False\<newline>'')
     (filename (FileTaskStorage_init ''tasks.txt'')) = Some ''5,Buy milk,None,False\<newline>'' \<and>
   file_lines (universal_newlines ''5,Buy milk,None,False\<newline>'') =
     [] @ ''5,Buy milk,None,False\<newline>'' # [] \<and>
   split_on CHR '','' (strip ''5,Buy milk,None,False\<newline>'') =
     [''5'', ''Buy milk'', ''None'', ''False''] \<and>
   py_int ''5'' = Inr 5 \<and>
   load_tasks (FileTaskStorage_init ''tasks.txt'')
     (file_world ''tasks.txt'' ''5,Buy milk,None,False\<newline>'') =
     (Inr [\<lparr>task_id = 5, description = ''Buy milk'', due_date = None, completed = False,
            priority = ''medium''\<rparr>],
      file_world ''tasks.txt'' ''5,Buy milk,None,False\<newline>'')"
proof -
  have h: "files (file_world ''tasks.txt'' ''5,Buy milk,None,False\<newline>'')
     (filename (FileTaskStorage_init ''tasks.txt'')) = Some ''5,Buy milk,None,False\<newline>''"
    by (simp add: file_world_def FileTaskStorage_init_def)
  have l: "file_lines (universal_newlines ''5,Buy milk,None,False\<newline>'') =
     [] @ ''5,Buy milk,None,False\<newline>'' # []"
    by code_simp
  have s: "split_on CHR '','' (strip ''5,Buy milk,None,False\<newline>'') =
     [''5'', ''Buy milk'', ''None'', ''False'']"
    by code_simp
  have i: "py_int ''5'' = Inr 5"
    by code_simp
  have e: "(if ''None'' = ''None'' then None else Some ''None'') = (None :: string option)"
      "(''False'' = ''True'') = False"
    by simp_all
  have "load_tasks (FileTaskStorage_init ''tasks.txt'')
     (file_world ''tasks.txt'' ''5,Buy milk,None,False\<newline>'') =
     (Inr [\<lparr>task_id = 5, description = ''Buy milk'',
            due_date = (if ''None'' = ''None'' then None else Some ''None''),
            completed = (''False'' = ''True''), priority = ''medium''\<rparr>],
      file_world ''tasks.txt'' ''5,Buy milk,None,False\<newline>'')"
    using load_four_field_line [OF h l s i, THEN conjunct2, THEN conjunct2]
    by (simp only: simp_thms)
  then have r: "load_tasks (FileTaskStorage_init ''tasks.txt'')
     (file_world ''tasks.txt'' ''5,Buy milk,None,False\<newline>'') =
     (Inr [\<lparr>task_id = 5, description = ''Buy milk'', due_date = None, completed = False,
            priority = ''medium''\<rparr>],
      file_world ''tasks.txt'' ''5,Buy milk,None,False\<newline>'')"
    by (simp only: e)
  show ?thesis
    by (intro conjI h l s i r)
qed

text \<open>The same line between a line of five fields, a short line and another line of four.\<close>

lemma mixed_file_loads:
  "fst (load_tasks (FileTaskStorage_init ''tasks.txt'')
     (file_world ''tasks.txt''
        ''1,Write spec,2024-01-01,True,high\<newline>abc\<newline>5,Buy milk,None,False\<newline>2,Clean desk,None,False\<newline>'')) =
   Inr [\<lparr>task_id = 1, description = ''Write spec'', due_date = Some ''2024-01-01'',
         completed = True, priority = ''high''\<rparr>,
        example_task 5 ''Buy milk'', example_task 2 ''Clean desk'']"
  by code_simp

text \<open>
  Claim C8, as amended. For every content of the file, \<open>load_tasks\<close> does what it
  would do on the lines of at least four fields alone: a shorter line adds no task and
  raises nothing. It returns a sequence of tasks exactly when the first field of each
  remaining line reads as an integer, and the sequence is then the tasks of the
  remaining lines in file order; it raises exactly when some remaining line has a first
  field that is no integer, and the exception is \<open>ValueError\<close>.
\<close>

theorem load_skips_short_lines:
  assumes "files w (filename st) = Some content"
  shows "load_tasks st w =
      (case load_lines
              (filter (\<lambda>l. \<not> short_line l) (file_lines (universal_newlines content)))
              [] (console w) of
         (r, out) \<Rightarrow> (r, w\<lparr>console := out\<rparr>)) \<and>
    (fst (load_tasks st w) = Inr ts \<longleftrightarrow>
       map loaded_task
         (filter (\<lambda>l. \<not> short_line l) (file_lines (universal_newlines content))) =
       map Some ts) \<and>
    (fst (load_tasks st w) = Inl e \<longleftrightarrow>
       e = ValueError \<and>
       (\<exists>l \<in> set (file_lines (universal_newlines content)).
          \<not> short_line l \<and> loaded_task l = None))"
proof -
  let ?ls = "file_lines (universal_newlines content)"
  have f: "fst (load_tasks st w) = fst (load_lines ?ls [] (console w))"
    using assms by (simp add: load_tasks_def split: prod.splits)
  have 1: "load_tasks st w =
      (case load_lines (filter (\<lambda>l. \<not> short_line l) ?ls) [] (console w) of
         (r, out) \<Rightarrow> (r, w\<lparr>console := out\<rparr>))"
    using assms load_lines_skip [of ?ls "[]" "console w"] by (simp add: load_tasks_def)
  have 2: "fst (load_tasks st w) = Inr ts \<longleftrightarrow>
       map loaded_task (filter (\<lambda>l. \<not> short_line l) ?ls) = map Some ts"
    unfolding f by (simp add: load_lines_Inr)
  have 3: "fst (load_tasks st w) = Inl e \<longleftrightarrow>
       e = ValueError \<and> (\<exists>l \<in> set ?ls. \<not> short_line l \<and> loaded_task l = None)"
    unfolding f by (rule load_lines_Inl)
  from 1 2 3 show ?thesis by blast
qed

text \<open>A file of a one-field line and a four-field line.\<close>

theorem load_skips_short_lines_witness:
  "files (file_world ''tasks.txt'' ''abc\<newline>5,Buy milk,None,False\<newline>'')
     (filename (FileTaskStorage_init ''tasks.txt'')) =
     Some ''abc\<newline>5,Buy milk,None,False\<newline>'' \<and>
   file_lines (universal_newlines ''abc\<newline>5,Buy milk,None,False\<newline>'') =
     [''abc\<newline>'', ''5,Buy milk,None,False\<newline>''] \<and>
   short_line ''abc\<newline>'' \<and>
   fst (load_tasks (FileTaskStorage_init ''tasks.txt'')
          (file_world ''tasks.txt'' ''abc\<newline>5,Buy milk,None,False\<newline>'')) =
     Inr [example_task 5 ''Buy milk'']"
proof -
  have h: "files (file_world ''tasks.txt'' ''abc\<newline>5,Buy milk,None,False\<newline>'')
     (filename (FileTaskStorage_init ''tasks.txt'')) =
     Some ''abc\<newline>5,Buy milk,None,False\<newline>''"
    by (simp add: file_world_def FileTaskStorage_init_def)
  have l: "file_lines (universal_newlines ''abc\<newline>5,Buy milk,None,False\<newline>'') =
     [''abc\<newline>'', ''5,Buy milk,None,False\<newline>'']"
    by code_simp
  have s: "short_line ''abc\<newline>''"
    by code_simp
  have m: "map loaded_task
      (filter (\<lambda>l. \<not> short_line l)
         (file_lines (universal_newlines ''abc\<newline>5,Buy milk,None,False\<newline>''))) =
      map Some [example_task 5 ''Buy milk'']"
    by code_simp
  have "fst (load_tasks (FileTaskStorage_init ''tasks.txt'')
          (file_world ''tasks.txt'' ''abc\<newline>5,Buy milk,None,False\<newline>'')) =
     Inr [example_task 5 ''Buy milk''] \<longleftrightarrow>
     map loaded_task
      (filter (\<lambda>l. \<not> short_line l)
         (file_lines (universal_newlines ''abc\<newline>5,Buy milk,None,False\<newline>''))) =
      map Some [example_task 5 ''Buy milk'']"
    using load_skips_short_lines [OF h, of "[example_task 5 ''Buy milk'']"] by blast
  with m have r: "fst (load_tasks (FileTaskStorage_init ''tasks.txt'')
          (file_world ''tasks.txt'' ''abc\<newline>5,Buy milk,None,False\<newline>'')) =
     Inr [example_task 5 ''Buy milk'']"
    by blast
  show ?thesis
    by (intro conjI h l s r)
qed

text \<open>
  Claim C8 as first stated has \<open>load_tasks\<close> return the tasks of the remaining lines
  for every file content. A file that starts with a line of column names has five
  fields in that line, none of them short, and \<open>load_tasks\<close> raises \<open>ValueError\<close>
  on it.
\<close>

theorem load_skips_short_lines_counterexample:
  "\<not> short_line ''id,description,due_date,completed,priority\<newline>'' \<and>
   fst (load_tasks (FileTaskStorage_init ''tasks.txt'')
          (file_world ''tasks.txt''
             ''id,description,due_date,completed,priority\<newline>1,Write spec,None,False,high\<newline>'')) =
     Inl ValueError"
  by code_simp

section \<open>The ids of the collection\<close>

lemma foldl_max_ge: "(a::int) \<le> foldl max a xs \<and> (\<forall>x \<in> set xs. x \<le> foldl max a xs)"
proof (induction xs arbitrary: a)
  case Nil
  show ?case by simp
next
  case (Cons y ys)
  from Cons.IH [of "max a y"] show ?case
    by auto
qed

lemma py_max_ge: "py_max xs = Some mx \<Longrightarrow> x \<in> set xs \<Longrightarrow> x \<le> mx"
  using foldl_max_ge by (cases xs) auto

lemma TaskManager_init_ids_below:
  assumes "TaskManager_init st w = (Inr m0, w0)"
  shows "ids_below_next m0"
proof -
  obtain r w1 where l: "load_tasks st w = (r, w1)"
    by (cases "load_tasks st w")
  with assms obtain ts where r: "r = Inr ts"
    by (cases r) (simp_all add: TaskManager_init_def)
  show ?thesis
  proof (cases "ts = []")
    case True
    with assms l r show ?thesis
      by (auto simp: TaskManager_init_def ids_below_next_def)
  next
    case False
    obtain mx where mx: "py_max (map task_id ts @ [0]) = Some mx"
      by (cases "map task_id ts @ [0]") auto
    with assms l r False have m0: "tasks m0 = ts" "next_id m0 = mx + 1"
      by (auto simp: TaskManager_init_def)
    have "\<forall>t \<in> set ts. task_id t \<le> mx"
      using py_max_ge [OF mx] by auto
    then show ?thesis
      by (auto simp: ids_below_next_def m0)
  qed
qed

lemma add_task_tasks:
  "\<exists>t. task_id t = next_id m \<and>
       tasks (fst (snd (add_task descr due prio m w))) = tasks m @ [t] \<and>
       next_id (fst (snd (add_task descr due prio m w))) = next_id m + 1"
  by (cases prio) (auto simp: add_task_def Task_init_def Let_def)

lemma add_task_ids_below:
  "ids_below_next m \<Longrightarrow> ids_below_next (fst (snd (add_task descr due prio m w)))"
  using add_task_tasks [of m descr due prio w]
  by (fastforce simp: ids_below_next_def)

lemma add_task_unique:
  "ids_below_next m \<Longrightarrow> unique_ids m \<Longrightarrow> unique_ids (fst (snd (add_task descr due prio m w)))"
  using add_task_tasks [of m descr due prio w]
  by (fastforce simp: ids_below_next_def unique_ids_def)

lemma map_task_id_completed:
  "map task_id (ts[k := (ts ! k)\<lparr>completed := True\<rparr>]) = map task_id ts"
proof (cases "k < length ts")
  case True
  then have "task_id ((ts ! k)\<lparr>completed := True\<rparr>) = map task_id ts ! k"
    by simp
  then show ?thesis
    by (simp only: map_update list_update_id)
next
  case False
  then have "ts[k := (ts ! k)\<lparr>completed := True\<rparr>] = ts"
    by (intro list_update_beyond) simp
  then show ?thesis
    by (simp only:)
qed

lemma mark_task_completed_ids:
  "map task_id (tasks (fst (snd (mark_task_completed i m w)))) = map task_id (tasks m) \<and>
   next_id (fst (snd (mark_task_completed i m w))) = next_id m"
  by (cases "get_task_by_id m i")
    (simp_all add: mark_task_completed_def mark_completed_def map_task_id_completed)

lemma ids_below_next_map:
  "ids_below_next m \<longleftrightarrow> (\<forall>i \<in> set (map task_id (tasks m)). i < next_id m)"
  by (auto simp: ids_below_next_def)

lemma do_call_invariant:
  "ids_below_next (fst s) \<Longrightarrow>
   ids_below_next (fst (do_call c s)) \<and> (unique_ids (fst s) \<longrightarrow> unique_ids (fst (do_call c s)))"
proof (cases c)
  case (AddTask descr due prio)
  assume "ids_below_next (fst s)"
  then show ?thesis
    using AddTask by (cases s) (simp add: add_task_ids_below add_task_unique)
next
  case (MarkTaskCompleted i)
  assume "ids_below_next (fst s)"
  then show ?thesis
    using MarkTaskCompleted mark_task_completed_ids [of i "fst s" "snd s"]
    by (cases s) (simp add: ids_below_next_map unique_ids_def)
qed

lemma run_calls_invariant:
  "ids_below_next (fst s) \<Longrightarrow>
   ids_below_next (fst (run_calls cs s)) \<and>
   (unique_ids (fst s) \<longrightarrow> unique_ids (fst (run_calls cs s)))"
proof (induction cs arbitrary: s)
  case Nil
  then show ?case by simp
next
  case (Cons c cs)
  from do_call_invariant [OF Cons.prems, of c]
  have a: "ids_below_next (fst (do_call c s))"
    and b: "unique_ids (fst s) \<longrightarrow> unique_ids (fst (do_call c s))"
    by simp_all
  from Cons.IH [OF a] b show ?case
    by simp
qed

text \<open>
  Claim C2, as amended. In every state a manager reaches, after its construction over
  any world and any sequence of \<open>add_task\<close> and \<open>mark_task_completed\<close> calls (a call
  that raises leaves a state too), \<open>next_id\<close> is strictly greater than the id of every
  task. The ids are pairwise distinct in that state whenever they were among the tasks
  loaded at construction, and so always over a file that does not exist.
\<close>

theorem reachable_ids:
  assumes "TaskManager_init st w = (Inr m0, w0)"
  shows "ids_below_next (fst (run_calls cs (m0, w0))) \<and>
    (unique_ids m0 \<longrightarrow> unique_ids (fst (run_calls cs (m0, w0)))) \<and>
    (files w (filename st) = None \<longrightarrow> unique_ids (fst (run_calls cs (m0, w0))))"
proof -
  have i: "ids_below_next (fst (m0, w0))"
    using TaskManager_init_ids_below [OF assms] by simp
  note r = run_calls_invariant [OF i, of cs]
  have "files w (filename st) = None \<Longrightarrow> unique_ids m0"
    using assms by (auto simp: TaskManager_init_def load_tasks_def unique_ids_def)
  with r show ?thesis
    by auto
qed

text \<open>
  The calls of a session over a missing file, one of them an \<open>add_task\<close> that raises.
\<close>

theorem reachable_ids_witness:
  "TaskManager_init (FileTaskStorage_init ''my_tasks.txt'') fresh_world =
     (Inr \<lparr>storage = FileTaskStorage_init ''my_tasks.txt'', tasks = [], next_id = 1\<rparr>,
      fresh_world\<lparr>console := [NoExistingFile ''my_tasks.txt'', Loaded 0 1]\<rparr>) \<and>
   files fresh_world (filename (FileTaskStorage_init ''my_tasks.txt'')) = None \<and>
   map task_id (tasks (fst (run_calls
       [AddTask ''Write spec'' (Some ''2024-01-01'') (Some ''high''),
        AddTask ''Organize workspace'' None None,
        MarkTaskCompleted 1,
        AddTask ''Clean desk'' None (Some ''medium'')]
       (\<lparr>storage = FileTaskStorage_init ''my_tasks.txt'', tasks = [], next_id = 1\<rparr>,
        fresh_world\<lparr>console := [NoExistingFile ''my_tasks.txt'', Loaded 0 1]\<rparr>)))) = [1, 2, 3] \<and>
   ids_below_next (fst (run_calls
       [AddTask ''Write spec'' (Some ''2024-01-01'') (Some ''high''),
        AddTask ''Organize workspace'' None None,
        MarkTaskCompleted 1,
        AddTask ''Clean desk'' None (Some ''medium'')]
       (\<lparr>storage = FileTaskStorage_init ''my_tasks.txt'', tasks = [], next_id = 1\<rparr>,
        fresh_world\<lparr>console := [NoExistingFile ''my_tasks.txt'', Loaded 0 1]\<rparr>))) \<and>
   unique_ids (fst (run_calls
       [AddTask ''Write spec'' (Some ''2024-01-01'') (Some ''high''),
        AddTask ''Organize workspace'' None None,
        MarkTaskCompleted 1,
        AddTask ''Clean desk'' None (Some ''medium'')]
       (\<lparr>storage = FileTaskStorage_init ''my_tasks.txt'', tasks = [], next_id = 1\<rparr>,
        fresh_world\<lparr>console := [NoExistingFile ''my_tasks.txt'', Loaded 0 1]\<rparr>)))"
proof -
  have h: "TaskManager_init (FileTaskStorage_init ''my_tasks.txt'') fresh_world =
     (Inr \<lparr>storage = FileTaskStorage_init ''my_tasks.txt'', tasks = [], next_id = 1\<rparr>,
      fresh_world\<lparr>console := [NoExistingFile ''my_tasks.txt'', Loaded 0 1]\<rparr>)"
    by (simp add: TaskManager_init_def load_tasks_def fresh_world_def FileTaskStorage_init_def)
  have f: "files fresh_world (filename (FileTaskStorage_init ''my_tasks.txt'')) = None"
    by (simp add: fresh_world_def)
  have e: "map task_id (tasks (fst (run_calls
       [AddTask ''Write spec'' (Some ''2024-01-01'') (Some ''high''),
        AddTask ''Organize workspace'' None None,
        MarkTaskCompleted 1,
        AddTask ''Clean desk'' None (Some ''medium'')]
       (\<lparr>storage = FileTaskStorage_init ''my_tasks.txt'', tasks = [], next_id = 1\<rparr>,
        fresh_world\<lparr>console := [NoExistingFile ''my_tasks.txt'', Loaded 0 1]\<rparr>)))) = [1, 2, 3]"
    by code_simp
  show ?thesis
    using h f e reachable_ids [OF h] by blast
qed

text \<open>
  Claim C2 as first stated has the ids pairwise distinct after construction over any
  backing store. \<open>load_tasks\<close> takes the ids as the file gives them: over a file of two
  lines with the id 1, the manager starts with two tasks of id 1.
\<close>

theorem reachable_ids_counterexample:
  "fst (TaskManager_init (FileTaskStorage_init ''tasks.txt'')
          (file_world ''tasks.txt''
             ''1,Write spec,None,False,high\<newline>1,Clean desk,None,False,medium\<newline>'')) =
     Inr \<lparr>storage = FileTaskStorage_init ''tasks.txt'',
          tasks = [\<lparr>task_id = 1, description = ''Write spec'', due_date = None,
                    completed = False, priority = ''high''\<rparr>,
                   \<lparr>task_id = 1, description = ''Clean desk'', due_date = None,
                    completed = False, priority = ''medium''\<rparr>],
          next_id = 2\<rparr> \<and>
   \<not> unique_ids
       \<lparr>storage = FileTaskStorage_init ''tasks.txt'',
        tasks = [\<lparr>task_id = 1, description = ''Write spec'', due_date = None,
                  completed = False, priority = ''high''\<rparr>,
                 \<lparr>task_id = 1, description = ''Clean desk'', due_date = None,
                  completed = False, priority = ''medium''\<rparr>],
        next_id = 2\<rparr>"
  by code_simp

end
